theory Spec2Isabelle
  imports Complex_Main "HOL-Library.Sublist" "HOL-Library.Multiset"
begin

section \<open>Python strings\<close>

text \<open>
  A Python \<open>str\<close> is a sequence of code points. The model is \<open>string\<close>, one \<open>char\<close> per
  code point, and covers the code points below 256; on these \<open>str.lower\<close>, the
  whitespace test behind \<open>str.split()\<close> and \<open>str.strip()\<close>, slicing and \<open>len\<close> are
  modelled in full.
\<close>

text \<open>
  \<open>str.lower\<close> below code point 256: the letters A to Z and the capital letters of
  the range 0xC0 to 0xDE (0xD7, the multiplication sign, is no letter) move up by 32;
  every other character stays.
\<close>

definition upper_chars :: string where
  "upper_chars =
     ''ABCDEFGHIJKLMNOPQRSTUVWXYZ'' @
       [CHR 0xC0, CHR 0xC1, CHR 0xC2, CHR 0xC3, CHR 0xC4, CHR 0xC5, CHR 0xC6, CHR 0xC7,
         CHR 0xC8, CHR 0xC9, CHR 0xCA, CHR 0xCB, CHR 0xCC, CHR 0xCD, CHR 0xCE, CHR 0xCF,
         CHR 0xD0, CHR 0xD1, CHR 0xD2, CHR 0xD3, CHR 0xD4, CHR 0xD5, CHR 0xD6, CHR 0xD8,
         CHR 0xD9, CHR 0xDA, CHR 0xDB, CHR 0xDC, CHR 0xDD, CHR 0xDE]"

definition lower_chars :: string where
  "lower_chars =
     ''abcdefghijklmnopqrstuvwxyz'' @
       [CHR 0xE0, CHR 0xE1, CHR 0xE2, CHR 0xE3, CHR 0xE4, CHR 0xE5, CHR 0xE6, CHR 0xE7,
         CHR 0xE8, CHR 0xE9, CHR 0xEA, CHR 0xEB, CHR 0xEC, CHR 0xED, CHR 0xEE, CHR 0xEF,
         CHR 0xF0, CHR 0xF1, CHR 0xF2, CHR 0xF3, CHR 0xF4, CHR 0xF5, CHR 0xF6, CHR 0xF8,
         CHR 0xF9, CHR 0xFA, CHR 0xFB, CHR 0xFC, CHR 0xFD, CHR 0xFE]"

definition lower_char :: "char \<Rightarrow> char" where
  "lower_char c = (case map_of (zip upper_chars lower_chars) c of Some l \<Rightarrow> l | None \<Rightarrow> c)"

definition lower :: "string \<Rightarrow> string" where
  "lower s = map lower_char s"

text \<open>
  The whitespace of \<open>str.split()\<close> and \<open>str.strip()\<close> below code point 256:
  0x09 to 0x0D, 0x1C to 0x20, 0x85 and 0xA0.
\<close>

definition space_chars :: string where
  "space_chars =
     [CHR 0x09, CHR 0x0A, CHR 0x0B, CHR 0x0C, CHR 0x0D, CHR 0x1C, CHR 0x1D, CHR 0x1E,
      CHR 0x1F, CHR 0x20, CHR 0x85, CHR 0xA0]"

definition is_space :: "char \<Rightarrow> bool" where
  "is_space c = (c \<in> set space_chars)"

text \<open>\<open>k in text\<close> on strings: \<open>k\<close> occurs in \<open>text\<close> as a contiguous run.\<close>

fun starts_with :: "string \<Rightarrow> string \<Rightarrow> bool" where
  "starts_with [] cs = True"
| "starts_with (k # ks) [] = False"
| "starts_with (k # ks) (c # cs) = (k = c \<and> starts_with ks cs)"

fun contains :: "string \<Rightarrow> string \<Rightarrow> bool" where
  "contains k [] = (k = [])"
| "contains k (c # cs) = (starts_with k (c # cs) \<or> contains k cs)"

section \<open>Articles\<close>

record article =
  title :: string
  description :: string
  url :: string
  source :: string
  published_at :: string
  relevance_score :: int

section \<open>Relevance scorer (\<open>_calculate_relevance\<close>)\<close>

definition watchlist :: "string list" where
  "watchlist =
     [''SPY'', ''QQQ'', ''IWM'', ''DIA'',
      ''AAPL'', ''MSFT'', ''GOOGL'', ''AMZN'', ''TSLA'', ''NVDA'', ''META'',
      ''XLF'', ''XLE'', ''XLK'', ''XLV'', ''XLI'']"

definition high_keywords :: "string list" where
  "high_keywords =
     [''federal reserve'', ''fed'', ''interest rate'', ''inflation'', ''gdp'', ''unemployment'',
      ''earnings'', ''guidance'', ''outlook'', ''forecast'', ''economic data'', ''jobs report'',
      ''fomc'', ''ppi'', ''cpi'', ''retail sales'', ''manufacturing'', ''consumer confidence'']"

definition medium_keywords :: "string list" where
  "medium_keywords =
     [''merger'', ''acquisition'', ''ipo'', ''analyst'', ''upgrade'', ''downgrade'',
      ''dividend'', ''split'', ''buyback'', ''guidance'', ''revenue'', ''profit'']"

definition weekly_keywords :: "string list" where
  "weekly_keywords =
     [''week ahead'', ''outlook'', ''forecast'', ''preview'', ''expectations'',
      ''trend'', ''momentum'', ''technical analysis'', ''support'', ''resistance'']"

text \<open>One \<open>for keyword in ...: if keyword in text: score += w\<close> loop.\<close>

fun score_keywords :: "string list \<Rightarrow> int \<Rightarrow> string \<Rightarrow> int \<Rightarrow> int" where
  "score_keywords [] w text score = score"
| "score_keywords (k # ks) w text score =
     score_keywords ks w text (if contains k text then score + w else score)"

text \<open>The watchlist loop: the bare symbol or the symbol behind a dollar sign.\<close>

fun score_symbols :: "string list \<Rightarrow> string \<Rightarrow> int \<Rightarrow> int" where
  "score_symbols [] text score = score"
| "score_symbols (s # ss) text score =
     score_symbols ss text
       (if contains (lower s) text \<or> contains (CHR ''$'' # lower s) text
        then score + 3 else score)"

text \<open>
  The argument dictionary of \<open>_calculate_relevance\<close> is read at its keys \<open>title\<close> and
  \<open>description\<close> only; both callers pass strings there.
\<close>

definition calculate_relevance :: "string \<Rightarrow> string \<Rightarrow> int" where
  "calculate_relevance ttl descr =
     (let score = 0;
          text = lower (ttl @ '' '' @ descr);
          score = score_keywords high_keywords 4 text score;
          score = score_keywords medium_keywords 2 text score;
          score = score_keywords weekly_keywords 3 text score;
          score = score_symbols watchlist text score
      in score)"

text \<open>
  For stating what the scorer computes: the lowercased text it searches, and the entries
  of a keyword list and of the watchlist that occur in it.
\<close>

definition scored_text :: "string \<Rightarrow> string \<Rightarrow> string" where
  "scored_text ttl descr = lower (ttl @ '' '' @ descr)"

definition present_keywords :: "string list \<Rightarrow> string \<Rightarrow> string list" where
  "present_keywords ks low = filter (\<lambda>k. contains k low) ks"

definition present_symbols :: "string \<Rightarrow> string list" where
  "present_symbols low =
     filter (\<lambda>s. contains (lower s) low \<or> contains (CHR ''$'' # lower s) low) watchlist"

section \<open>More string operations\<close>

text \<open>\<open>s.split()\<close>: the maximal runs of non-whitespace characters, in order.\<close>

fun split_words :: "string \<Rightarrow> string \<Rightarrow> string list" where
  "split_words cur [] = (if cur = [] then [] else [cur])"
| "split_words cur (c # cs) =
     (if is_space c
      then (if cur = [] then split_words [] cs else cur # split_words [] cs)
      else split_words (cur @ [c]) cs)"

definition split_ws :: "string \<Rightarrow> string list" where
  "split_ws s = split_words [] s"

text \<open>\<open>s.strip()\<close>: leading and trailing whitespace removed.\<close>

definition strip :: "string \<Rightarrow> string" where
  "strip s = rev (dropWhile is_space (rev (dropWhile is_space s)))"

text \<open>
  \<open>s.split(sep)\<close> for a non-empty separator: cut at the leftmost occurrences, scanning
  from the left, empty pieces kept. The source calls it with the two literal separators
  below only (an empty separator raises in Python and is outside the model).
\<close>

function split_on :: "string \<Rightarrow> string \<Rightarrow> string \<Rightarrow> string list" where
  "split_on sep cur [] = [cur]"
| "split_on sep cur (c # cs) =
     (if sep \<noteq> [] \<and> starts_with sep (c # cs)
      then cur # split_on sep [] (drop (length sep) (c # cs))
      else split_on sep (cur @ [c]) cs)"
  by pat_completeness auto
termination
  by (relation "measure (\<lambda>(sep, cur, s). length s)") auto

definition para_sep :: string where
  "para_sep = [CHR 0x0A, CHR 0x0A]"

definition sent_sep :: string where
  "sent_sep = ''. ''"

section \<open>Deduplicator (\<open>_deduplicate_articles\<close>)\<close>

datatype exn =
    ZeroDivisionError
  | ValueError_openai_key
  | ValueError_webhook_url
  | HTTPError nat
  | Transport_error

text \<open>
  The inner loop over \<open>seen_titles\<close>, given in the order the set is iterated.
  \<open>len(a & b) / max(len(a), len(b))\<close> raises when the divisor is zero. The quotient is a
  float compared with the float literal \<open>0.7\<close>; both are correctly rounded, so for word
  counts below \<open>10 ^ 14\<close> the comparison \<open>overlap > 0.7\<close> holds exactly when
  \<open>10 * len(a & b) > 7 * max(len(a), len(b))\<close>, which is what the model tests.
\<close>

fun scan_seen :: "string set \<Rightarrow> string list \<Rightarrow> exn + bool" where
  "scan_seen title_words [] = Inr False"
| "scan_seen title_words (seen_title # rest) =
     (let seen_words = set (split_ws seen_title);
          d = max (card title_words) (card seen_words)
      in if d = 0 then Inl ZeroDivisionError
         else if 7 * d < 10 * card (title_words \<inter> seen_words) then Inr True
         else scan_seen title_words rest)"

text \<open>\<open>seen_titles.add(t)\<close> on the iteration order: a title already present is not added.\<close>

definition set_add :: "string list \<Rightarrow> string \<Rightarrow> string list" where
  "set_add seen t = (if t \<in> set seen then seen else seen @ [t])"

fun dedup_loop :: "article list \<Rightarrow> article list \<Rightarrow> string list \<Rightarrow> exn + article list" where
  "dedup_loop [] unique_articles seen_titles = Inr unique_articles"
| "dedup_loop (a # as) unique_articles seen_titles =
     (case scan_seen (set (split_ws (lower (title a)))) seen_titles of
        Inl e \<Rightarrow> Inl e
      | Inr is_duplicate \<Rightarrow>
          if \<not> is_duplicate
          then dedup_loop as (unique_articles @ [a]) (set_add seen_titles (lower (title a)))
          else dedup_loop as unique_articles seen_titles)"

definition deduplicate_articles :: "article list \<Rightarrow> exn + article list" where
  "deduplicate_articles articles = dedup_loop articles [] []"

text \<open>
  The Deduplicator as the specification words it: a greedy scan that drops an article
  when the overlap of its title's word set with the word set of some accepted title
  satisfies \<open>dup\<close>, the overlap of two empty word sets being 0.
\<close>

definition title_words :: "article \<Rightarrow> string set" where
  "title_words a = set (split_ws (lower (title a)))"

definition overlap :: "string set \<Rightarrow> string set \<Rightarrow> rat" where
  "overlap A B = of_nat (card (A \<inter> B)) / of_nat (max (card A) (card B))"

fun greedy_scan :: "(rat \<Rightarrow> bool) \<Rightarrow> article list \<Rightarrow> article list \<Rightarrow> article list" where
  "greedy_scan dup accepted [] = accepted"
| "greedy_scan dup accepted (a # as) =
     (if \<exists>b \<in> set accepted. dup (overlap (title_words a) (title_words b))
      then greedy_scan dup accepted as
      else greedy_scan dup (accepted @ [a]) as)"

definition spec_deduplicate :: "article list \<Rightarrow> article list" where
  "spec_deduplicate articles = greedy_scan (\<lambda>r. 7 / 10 \<le> r) [] articles"

definition zero_words :: "article \<Rightarrow> bool" where
  "zero_words a = (split_ws (lower (title a)) = [])"

section \<open>News fetcher\<close>

text \<open>
  An article object of the News API's JSON body; \<open>None\<close> is an absent key. Present
  values are strings.
\<close>

record raw_article =
  raw_title :: "string option"
  raw_description :: "string option"
  raw_url :: "string option"
  raw_source_name :: "string option"
  raw_publishedAt :: "string option"

text \<open>
  The loop of \<open>_fetch_from_newsapi\<close>. An absent \<open>url\<close>, \<open>source.name\<close> or
  \<open>publishedAt\<close> raises KeyError, which the handler around the request catches: the
  loop ends and the articles appended so far are returned.
\<close>

fun newsapi_loop :: "raw_article list \<Rightarrow> article list \<Rightarrow> article list" where
  "newsapi_loop [] articles = articles"
| "newsapi_loop (r # rs) articles =
     (case (raw_title r, raw_description r) of
        (Some t, Some d) \<Rightarrow>
          if t \<noteq> [] \<and> d \<noteq> []
          then (case (raw_url r, raw_source_name r, raw_publishedAt r) of
                  (Some u, Some s, Some p) \<Rightarrow>
                    newsapi_loop rs
                      (articles @ [\<lparr>title = t, description = d, url = u, source = s,
                                    published_at = p,
                                    relevance_score = calculate_relevance t d\<rparr>])
                | _ \<Rightarrow> articles)
          else newsapi_loop rs articles
      | _ \<Rightarrow> newsapi_loop rs articles)"

datatype news_response = News_exception | News_status nat "raw_article list"

definition fetch_from_newsapi :: "news_response \<Rightarrow> article list" where
  "fetch_from_newsapi resp =
     (case resp of
        News_exception \<Rightarrow> []
      | News_status status news_articles \<Rightarrow>
          if status = 200 then newsapi_loop news_articles [] else [])"

text \<open>A parsed feed entry; \<open>None\<close> is an attribute the entry does not have.\<close>

record rss_entry =
  entry_title :: "string option"
  entry_link :: "string option"
  entry_summary :: "string option"
  entry_published :: "string option"

datatype rss_feed = Feed_exception | Feed "string option" "rss_entry list"

fun rss_entries_loop :: "string option \<Rightarrow> rss_entry list \<Rightarrow> article list \<Rightarrow> article list" where
  "rss_entries_loop feed_title [] articles = articles"
| "rss_entries_loop feed_title (e # es) articles =
     (case (entry_title e, entry_link e) of
        (Some t, Some l) \<Rightarrow>
          rss_entries_loop feed_title es
            (articles @
              [\<lparr>title = t,
                description = take 200 (case entry_summary e of Some s \<Rightarrow> s | None \<Rightarrow> t),
                url = l,
                source = (case feed_title of Some ft \<Rightarrow> ft | None \<Rightarrow> ''RSS Feed''),
                published_at = (case entry_published e of Some p \<Rightarrow> p | None \<Rightarrow> []),
                relevance_score =
                  calculate_relevance t (case entry_summary e of Some s \<Rightarrow> s | None \<Rightarrow> [])\<rparr>])
      | _ \<Rightarrow> rss_entries_loop feed_title es articles)"

text \<open>
  The article that the loop appends for an entry with title \<open>t\<close> and link \<open>l\<close>, for
  stating where an article of the result comes from.
\<close>

definition entry_article :: "string option \<Rightarrow> rss_entry \<Rightarrow> string \<Rightarrow> string \<Rightarrow> article" where
  "entry_article feed_title e t l =
     \<lparr>title = t,
      description = take 200 (case entry_summary e of Some s \<Rightarrow> s | None \<Rightarrow> t),
      url = l,
      source = (case feed_title of Some ft \<Rightarrow> ft | None \<Rightarrow> ''RSS Feed''),
      published_at = (case entry_published e of Some p \<Rightarrow> p | None \<Rightarrow> []),
      relevance_score =
        calculate_relevance t (case entry_summary e of Some s \<Rightarrow> s | None \<Rightarrow> [])\<rparr>"

text \<open>One parse result per feed URL, in the order of \<open>rss_feeds\<close>; a feed that raises adds nothing.\<close>

fun fetch_from_rss_loop :: "rss_feed list \<Rightarrow> article list \<Rightarrow> article list" where
  "fetch_from_rss_loop [] articles = articles"
| "fetch_from_rss_loop (Feed_exception # fs) articles = fetch_from_rss_loop fs articles"
| "fetch_from_rss_loop (Feed feed_title entries # fs) articles =
     fetch_from_rss_loop fs (rss_entries_loop feed_title (take 10 entries) articles)"

definition fetch_from_rss :: "rss_feed list \<Rightarrow> article list" where
  "fetch_from_rss feeds = fetch_from_rss_loop feeds []"

section \<open>Aggregator (\<open>fetch_weekend_news\<close>)\<close>

text \<open>
  \<open>sorted(xs, key=..., reverse=True)\<close>: CPython reverses the list, sorts it stably in
  ascending order of the key and reverses the result.
\<close>

definition sorted_reverse :: "article list \<Rightarrow> article list" where
  "sorted_reverse xs = rev (sort_key relevance_score (rev xs))"

definition rank_articles :: "article list \<Rightarrow> article list" where
  "rank_articles unique_articles = take 15 (sorted_reverse unique_articles)"

definition truthy :: "string option \<Rightarrow> bool" where
  "truthy v = (case v of None \<Rightarrow> False | Some s \<Rightarrow> s \<noteq> [])"

definition fetch_weekend_news :: "string option \<Rightarrow> news_response \<Rightarrow> rss_feed list \<Rightarrow> article list" where
  "fetch_weekend_news news_api_key resp feeds =
     (let articles = (if truthy news_api_key then fetch_from_newsapi resp else []);
          articles = articles @ fetch_from_rss feeds
      in case deduplicate_articles articles of
           Inl e \<Rightarrow> []
         | Inr unique_articles \<Rightarrow> rank_articles unique_articles)"

section \<open>Notifier: chunking (\<open>split_outlook\<close>)\<close>

fun pack_sentences :: "nat \<Rightarrow> string list \<Rightarrow> string list \<Rightarrow> string \<Rightarrow> string list \<times> string" where
  "pack_sentences max_length [] parts temp_part = (parts, temp_part)"
| "pack_sentences max_length (sentence # rest) parts temp_part =
     (if length (temp_part @ sentence @ sent_sep) \<le> max_length
      then pack_sentences max_length rest parts (temp_part @ sentence @ sent_sep)
      else pack_sentences max_length rest
             (if strip temp_part \<noteq> [] then parts @ [strip temp_part] else parts)
             (sentence @ sent_sep))"

fun pack_paragraphs :: "nat \<Rightarrow> string list \<Rightarrow> string list \<Rightarrow> string \<Rightarrow> string list \<times> string" where
  "pack_paragraphs max_length [] parts current_part = (parts, current_part)"
| "pack_paragraphs max_length (paragraph # rest) parts current_part =
     (if length (current_part @ paragraph @ para_sep) > max_length
      then
        (let parts1 = (if strip current_part \<noteq> [] then parts @ [strip current_part] else parts);
             current1 = (if strip current_part \<noteq> [] then [] else current_part)
         in if length paragraph > max_length
            then
              (let r = pack_sentences max_length (split_on sent_sep [] paragraph) parts1 []
               in pack_paragraphs max_length rest (fst r)
                    (if strip (snd r) \<noteq> [] then snd r else current1))
            else pack_paragraphs max_length rest parts1 (paragraph @ para_sep))
      else pack_paragraphs max_length rest parts (current_part @ paragraph @ para_sep))"

definition split_outlook :: "string \<Rightarrow> nat \<Rightarrow> string list" where
  "split_outlook text max_length =
     (if length text \<le> max_length then [text]
      else
        (let r = pack_paragraphs max_length (split_on para_sep [] text) [] []
         in if strip (snd r) \<noteq> [] then fst r @ [strip (snd r)] else fst r))"



section \<open>Notifier: delivery (\<open>send_weekly_discord_webhook\<close>)\<close>

text \<open>
  What the webhook answers to a POST: an HTTP status, or nothing (connection failure or
  timeout, for which \<open>requests.post\<close> raises a \<open>RequestException\<close>).
\<close>

datatype response = Status nat | No_response

datatype field_name = Header | Blank

text \<open>
  The three bodies the program sends. The rich payload is given by its outlook fields and
  its story lines (title cut at 70 characters, and link); the other embeds are constant.
  The error payload's text is the first 200 characters of the exception's message.
\<close>

datatype payload =
    Rich_payload "(field_name \<times> string) list" "(string \<times> string) list"
  | Simple_payload string
  | Error_payload exn

text \<open>The run's requests to the outside, in order.\<close>

datatype event = Probe_llm | Fetch_newsapi | Fetch_rss | Generate_llm | Post payload

fun is_post :: "event \<Rightarrow> bool" where
  "is_post (Post p) = True"
| "is_post ev = False"

definition posts_so_far :: "event list \<Rightarrow> nat" where
  "posts_so_far tr = length (filter is_post tr)"

text \<open>\<open>web n\<close> is the webhook's answer to the run's POST number \<open>n\<close>, counted from 0.\<close>

definition requests_post :: "(nat \<Rightarrow> response) \<Rightarrow> payload \<Rightarrow> event list \<Rightarrow> (exn + nat) \<times> event list" where
  "requests_post web p tr =
     ((case web (posts_so_far tr) of Status c \<Rightarrow> Inr c | No_response \<Rightarrow> Inl Transport_error),
      tr @ [Post p])"

text \<open>\<open>Response.raise_for_status\<close> of the requests library: HTTPError for 4xx and 5xx.\<close>

definition raise_for_status :: "nat \<Rightarrow> exn + unit" where
  "raise_for_status c = (if 400 \<le> c \<and> c < 600 then Inl (HTTPError c) else Inr ())"

definition post_checked :: "(nat \<Rightarrow> response) \<Rightarrow> payload \<Rightarrow> event list \<Rightarrow> (exn + unit) \<times> event list" where
  "post_checked web p tr =
     (case requests_post web p tr of
        (Inl e, tr1) \<Rightarrow> (Inl e, tr1)
      | (Inr c, tr1) \<Rightarrow> (raise_for_status c, tr1))"

fun outlook_fields :: "nat \<Rightarrow> string list \<Rightarrow> (field_name \<times> string) list" where
  "outlook_fields i [] = []"
| "outlook_fields i (part # parts) =
     ((if i = 0 then Header else Blank), part) # outlook_fields (Suc i) parts"

definition rich_payload :: "string \<Rightarrow> article list \<Rightarrow> payload" where
  "rich_payload outlook articles =
     Rich_payload (outlook_fields 0 (split_outlook outlook 1000))
       (map (\<lambda>a. (take 70 (title a), url a)) (take 8 articles))"

text \<open>
  \<open>pfx\<close> is the line in front of the outlook in the simplified payload, built from the
  week range; its first character lies outside the modelled code points, so the line is a
  parameter. Serialising the payload and deleting NUL characters from the JSON text
  changes nothing, since JSON text holds no NUL character.
\<close>

definition simple_payload :: "string \<Rightarrow> string \<Rightarrow> payload" where
  "simple_payload pfx outlook = Simple_payload (pfx @ take 1800 outlook)"

definition send_weekly_discord_webhook ::
  "(nat \<Rightarrow> response) \<Rightarrow> string \<Rightarrow> string \<Rightarrow> article list \<Rightarrow> event list \<Rightarrow> (exn + unit) \<times> event list" where
  "send_weekly_discord_webhook web pfx outlook articles tr =
     (case post_checked web (rich_payload outlook articles) tr of
        (Inr u, tr1) \<Rightarrow> (Inr (), tr1)
      | (Inl e, tr1) \<Rightarrow>
          (case e of
             HTTPError c \<Rightarrow>
               if c = 400 then post_checked web (simple_payload pfx outlook) tr1
               else (Inl e, tr1)
           | _ \<Rightarrow> (Inl e, tr1)))"

section \<open>Driver (\<open>main\<close>)\<close>

text \<open>The environment of one run: the configuration and what the outside answers.\<close>

record env =
  openai_key :: "string option"
  webhook_url :: "string option"
  news_key :: "string option"
  probe_ok :: bool
  news_response :: news_response
  rss_feeds :: "rss_feed list"
  llm :: "article list \<Rightarrow> string option"
  webhook :: "nat \<Rightarrow> response"
  simple_prefix :: string

text \<open>\<open>WeeklyOutlookBot.__init__\<close>: the two checks of the required values.\<close>

definition init_bot :: "env \<Rightarrow> exn + unit" where
  "init_bot e =
     (if \<not> truthy (openai_key e) then Inl ValueError_openai_key
      else if \<not> truthy (webhook_url e) then Inl ValueError_webhook_url
      else Inr ())"

text \<open>\<open>test_openai\<close> catches every exception of the probe and returns a truth value.\<close>

definition test_openai :: "env \<Rightarrow> event list \<Rightarrow> bool \<times> event list" where
  "test_openai e tr = (probe_ok e, tr @ [Probe_llm])"

definition fetch_weekend_news_io :: "env \<Rightarrow> event list \<Rightarrow> article list \<times> event list" where
  "fetch_weekend_news_io e tr =
     (fetch_weekend_news (news_key e) (news_response e) (rss_feeds e),
      tr @ (if truthy (news_key e) then [Fetch_newsapi] else []) @ [Fetch_rss])"

definition no_news_text :: string where
  "no_news_text = ''Limited news available for this week's outlook. Focus on major economic indicators and earnings releases.''"

definition unable_text :: string where
  "unable_text = ''Unable to generate weekly outlook at this time. Focus on major economic indicators, earnings releases, and Fed communications for the week ahead.''"

text \<open>\<open>llm e\<close> answers the prompt built from the first 12 articles; \<open>None\<close> is a call that raises.\<close>

definition generate_weekly_outlook :: "env \<Rightarrow> article list \<Rightarrow> event list \<Rightarrow> string \<times> event list" where
  "generate_weekly_outlook e articles tr =
     (if articles = [] then (no_news_text, tr)
      else ((case llm e (take 12 articles) of Some s \<Rightarrow> strip s | None \<Rightarrow> unable_text),
            tr @ [Generate_llm]))"

text \<open>
  The handler of \<open>main\<close>: one POST of the error text when the webhook URL is set, its
  own failure swallowed; the exception is raised again afterwards.
\<close>

definition notify_error :: "env \<Rightarrow> exn \<Rightarrow> event list \<Rightarrow> event list" where
  "notify_error e ex tr = (if truthy (webhook_url e) then tr @ [Post (Error_payload ex)] else tr)"

text \<open>The three stage calls of \<open>main\<close> after the probe.\<close>

definition run_stages :: "env \<Rightarrow> event list \<Rightarrow> (exn + unit) \<times> event list" where
  "run_stages e tr =
     (case fetch_weekend_news_io e tr of
        (articles, tr1) \<Rightarrow>
          (case generate_weekly_outlook e articles tr1 of
             (outlook, tr2) \<Rightarrow>
               send_weekly_discord_webhook (webhook e) (simple_prefix e) outlook articles tr2))"

text \<open>\<open>Inr ()\<close> is \<open>main\<close> returning; \<open>Inl ex\<close> is \<open>main\<close> raising \<open>ex\<close>.\<close>

definition main :: "env \<Rightarrow> (exn + unit) \<times> event list" where
  "main e =
     (case init_bot e of
        Inl ex \<Rightarrow> (Inl ex, notify_error e ex [])
      | Inr b \<Rightarrow>
          (case test_openai e [] of
             (ok, tr) \<Rightarrow>
               if \<not> ok then (Inr (), tr)
               else (case run_stages e tr of
                       (Inl ex, tr1) \<Rightarrow> (Inl ex, notify_error e ex tr1)
                     | (Inr u, tr1) \<Rightarrow> (Inr (), tr1))))"

text \<open>
  The status of the process: \<open>asyncio.run(main())\<close> ends the interpreter with status 0
  when \<open>main\<close> returns and with status 1 when it raises.
\<close>

definition exit_status :: "exn + unit \<Rightarrow> nat" where
  "exit_status r = (case r of Inl ex \<Rightarrow> 1 | Inr u \<Rightarrow> 0)"

text \<open>
  The driver's state \<open>Failed\<close> as the specification words it: entered when a required
  configuration value is missing, when the connectivity probe fails, and when a later
  stage raises.
\<close>

definition reaches_failed :: "env \<Rightarrow> bool" where
  "reaches_failed e =
     ((\<exists>ex. init_bot e = Inl ex)
      \<or> (init_bot e = Inr () \<and> probe_ok e = False)
      \<or> (init_bot e = Inr () \<and> probe_ok e = True
           \<and> (\<exists>ex. fst (run_stages e [Probe_llm]) = Inl ex)))"

section \<open>Example inputs\<close>

definition headline :: "string \<Rightarrow> int \<Rightarrow> article" where
  "headline t n =
     \<lparr>title = t, description = ''d'', url = ''u'', source = ''s'', published_at = ''p'',
      relevance_score = n\<rparr>"

definition sixteen :: "article list" where
  "sixteen =
     [headline ''a00'' 4, headline ''a01'' 0, headline ''a02'' 7, headline ''a03'' 4,
      headline ''a04'' 0, headline ''a05'' 3, headline ''a06'' 7, headline ''a07'' 4,
      headline ''a08'' 2, headline ''a09'' 0, headline ''a10'' 9, headline ''a11'' 3,
      headline ''a12'' 4, headline ''a13'' 6, headline ''a14'' 0, headline ''a15'' 7]"

text \<open>A run's environment: both required values set, no news, every outside call answered.\<close>

definition quiet_env :: env where
  "quiet_env =
     \<lparr>openai_key = Some ''sk-test'', webhook_url = Some ''https://hooks.example/1'',
      news_key = None, probe_ok = True, news_response = News_exception, rss_feeds = [],
      llm = (\<lambda>articles. Some ''Calm week.''), webhook = (\<lambda>n. Status 204),
      simple_prefix = ''Weekly Market Outlook: ''\<rparr>"

definition answers :: "response list \<Rightarrow> nat \<Rightarrow> response" where
  "answers rs n = (if n < length rs then rs ! n else Status 204)"

definition probe_down_env :: env where
  "probe_down_env = quiet_env\<lparr>probe_ok := False\<rparr>"

definition no_key_env :: env where
  "no_key_env = quiet_env\<lparr>openai_key := None\<rparr>"

definition no_url_env :: env where
  "no_url_env = quiet_env\<lparr>webhook_url := None\<rparr>"

definition webhook_500_env :: env where
  "webhook_500_env = quiet_env\<lparr>webhook := (\<lambda>n. Status 500)\<rparr>"

definition fed_headlines :: "article list" where
  "fed_headlines =
     [headline ''Fed Raises Rates Again'' 4,
      headline ''Fed Raises Interest Rates Again'' 8,
      headline ''Apple Reports Earnings'' 4]"

text \<open>Two titles of ten words with seven words in common: an overlap of exactly 0.7.\<close>

definition ten_first :: article where
  "ten_first = headline ''a b c d e f g h i j'' 0"

definition ten_second :: article where
  "ten_second = headline ''a b c d e f g x y z'' 0"

definition seven_of_ten :: "article list" where
  "seven_of_ten = [ten_first, ten_second]"

text \<open>Two titles without a word: an empty one and a blank one.\<close>

definition wordless_titles :: "article list" where
  "wordless_titles = [headline [] 0, headline '' '' 0]"

text \<open>A feed whose only entry has an empty title and an empty summary.\<close>

definition blank_entry_feed :: "rss_feed list" where
  "blank_entry_feed =
     [Feed (Some ''Wire'')
        [\<lparr>entry_title = Some [], entry_link = Some ''https://wire.example/1'',
          entry_summary = Some [], entry_published = None\<rparr>]]"

definition blank_article :: article where
  "blank_article =
     \<lparr>title = [], description = [], url = ''https://wire.example/1'', source = ''Wire'',
      published_at = [], relevance_score = 0\<rparr>"

text \<open>One article from the News API and one feed entry.\<close>

definition fed_response :: news_response where
  "fed_response =
     News_status 200
       [\<lparr>raw_title = Some ''Fed holds rates'', raw_description = Some ''Markets calm'',
         raw_url = Some ''https://news.example/fed'', raw_source_name = Some ''Reuters'',
         raw_publishedAt = Some ''2024-01-05''\<rparr>]"

definition apple_feed :: "rss_feed list" where
  "apple_feed =
     [Feed None
        [\<lparr>entry_title = Some ''Apple Reports Earnings'',
          entry_link = Some ''https://wire.example/2'',
          entry_summary = None, entry_published = None\<rparr>]]"



section \<open>Properties of the relevance scorer\<close>

lemma score_keywords_count:
  "score_keywords ks w text score = score + w * int (length (filter (\<lambda>k. contains k text) ks))"
  by (induction ks arbitrary: score) (simp_all add: algebra_simps)

lemma score_symbols_count:
  "score_symbols ss text score =
     score + 3 * int (length (filter (\<lambda>s. contains (lower s) text \<or> contains (CHR ''$'' # lower s) text) ss))"
  by (induction ss arbitrary: score) (simp_all add: algebra_simps)

lemma calculate_relevance_steps:
  assumes "lower (t @ '' '' @ d) = low"
    and "score_keywords high_keywords 4 low 0 = a"
    and "score_keywords medium_keywords 2 low a = b"
    and "score_keywords weekly_keywords 3 low b = c"
    and "score_symbols watchlist low c = r"
  shows "calculate_relevance t d = r"
  using assms by (simp add: calculate_relevance_def)

lemma relevance_fed_spy: "calculate_relevance ''Fed holds rates, $SPY reacts'' [] = 7"
  by (rule calculate_relevance_steps
        [where low = "''fed holds rates, $spy reacts ''" and a = 4 and b = 4 and c = 4];
      code_simp)

lemma relevance_fed_spy_repeated:
  "calculate_relevance ''Fed holds rates, Fed repeats: Fed. $SPY reacts, $SPY $SPY'' [] = 7"
  by (rule calculate_relevance_steps
        [where low = "''fed holds rates, fed repeats: fed. $spy reacts, $spy $spy ''"
           and a = 4 and b = 4 and c = 4];
      code_simp)




lemma calculate_relevance_nonneg: "0 \<le> calculate_relevance t d"
  by (simp add: calculate_relevance_def Let_def score_keywords_count score_symbols_count)

lemma scored_text_fed_spy:
  "scored_text ''Fed holds rates, $SPY reacts'' [] = ''fed holds rates, $spy reacts ''"
  by code_simp

lemma present_fed_spy:
  "present_keywords high_keywords ''fed holds rates, $spy reacts '' = [''fed'']"
  "present_keywords medium_keywords ''fed holds rates, $spy reacts '' = []"
  "present_keywords weekly_keywords ''fed holds rates, $spy reacts '' = []"
  "present_symbols ''fed holds rates, $spy reacts '' = [''SPY'']"
  by code_simp+

lemma scored_text_outlook_spy: "scored_text ''outlook $SPY'' [] = ''outlook $spy ''"
  by code_simp

lemma present_outlook_spy:
  "present_keywords high_keywords ''outlook $spy '' = [''outlook'']"
  "present_keywords weekly_keywords ''outlook $spy '' = [''outlook'']"
  "present_symbols ''outlook $spy '' = [''SPY'']"
  by code_simp+

lemma relevance_outlook_spy: "calculate_relevance ''outlook $SPY'' [] = 10"
  by (rule calculate_relevance_steps
        [where low = "''outlook $spy ''" and a = 4 and b = 4 and c = 7];
      code_simp)

lemma calculate_relevance_closed_form:
  "calculate_relevance t d =
     4 * int (length (present_keywords high_keywords (scored_text t d)))
     + 2 * int (length (present_keywords medium_keywords (scored_text t d)))
     + 3 * int (length (present_keywords weekly_keywords (scored_text t d)))
     + 3 * int (length (present_symbols (scored_text t d)))"
  by (simp add: calculate_relevance_def Let_def score_keywords_count score_symbols_count
        present_keywords_def present_symbols_def scored_text_def)

text \<open>
  C7, as amended. The score is a sum over the vocabulary of a weight for each entry that
  occurs in the lowercased text: 4 for each high-priority keyword present, 2 for each
  medium-priority keyword, 3 for each weekly keyword and 3 for each watchlist symbol
  present, bare or behind a dollar sign. It depends on which entries occur, not on how
  often. A text in which exactly one high-priority keyword and exactly one watchlist
  symbol occur, and no medium-priority and no weekly keyword, scores 4 + 3 = 7; such a
  text is ``Fed holds rates, $SPY reacts'', and a text that repeats its ``Fed'' and
  ``$SPY'' scores 7 as well.
\<close>

theorem scorer_membership:
  "calculate_relevance t d =
     4 * int (length (present_keywords high_keywords (scored_text t d)))
     + 2 * int (length (present_keywords medium_keywords (scored_text t d)))
     + 3 * int (length (present_keywords weekly_keywords (scored_text t d)))
     + 3 * int (length (present_symbols (scored_text t d)))
   \<and> (length (present_keywords high_keywords (scored_text t d)) = 1
        \<and> present_keywords medium_keywords (scored_text t d) = []
        \<and> present_keywords weekly_keywords (scored_text t d) = []
        \<and> length (present_symbols (scored_text t d)) = 1
        \<longrightarrow> calculate_relevance t d = 4 + 3)
   \<and> calculate_relevance ''Fed holds rates, $SPY reacts'' [] = 4 + 3
   \<and> calculate_relevance ''Fed holds rates, Fed repeats: Fed. $SPY reacts, $SPY $SPY'' [] = 4 + 3"
proof -
  have "length (present_keywords high_keywords (scored_text t d)) = 1
        \<and> present_keywords medium_keywords (scored_text t d) = []
        \<and> present_keywords weekly_keywords (scored_text t d) = []
        \<and> length (present_symbols (scored_text t d)) = 1
        \<longrightarrow> calculate_relevance t d = 4 + 3"
    by (simp add: calculate_relevance_closed_form)
  with calculate_relevance_closed_form [of t d] relevance_fed_spy relevance_fed_spy_repeated
  show ?thesis
    by simp
qed

theorem scorer_membership_witness:
  "length (present_keywords high_keywords (scored_text ''Fed holds rates, $SPY reacts'' [])) = 1
   \<and> present_keywords medium_keywords (scored_text ''Fed holds rates, $SPY reacts'' []) = []
   \<and> present_keywords weekly_keywords (scored_text ''Fed holds rates, $SPY reacts'' []) = []
   \<and> length (present_symbols (scored_text ''Fed holds rates, $SPY reacts'' [])) = 1
   \<and> calculate_relevance ''Fed holds rates, $SPY reacts'' [] = 7"
  using scorer_membership [of "''Fed holds rates, $SPY reacts''" "[]"]
  by (simp add: scored_text_fed_spy present_fed_spy)

theorem one_keyword_one_symbol_scores_10:
  "present_keywords high_keywords (scored_text ''outlook $SPY'' []) = [''outlook'']
   \<and> present_symbols (scored_text ''outlook $SPY'' []) = [''SPY'']
   \<and> calculate_relevance ''outlook $SPY'' [] = 10"
  by (simp add: scored_text_outlook_spy present_outlook_spy relevance_outlook_spy)


section \<open>Properties of the aggregation step\<close>

lemma sorted_reverse_stable:
  "filter (\<lambda>a. relevance_score a = k) (sorted_reverse xs) = filter (\<lambda>a. relevance_score a = k) xs"
proof -
  have "filter (\<lambda>a. relevance_score a = k) (sorted_reverse xs)
        = rev (filter (\<lambda>a. relevance_score a = k) (sort_key relevance_score (rev xs)))"
    by (simp add: sorted_reverse_def rev_filter)
  also have "\<dots> = rev (filter (\<lambda>a. relevance_score a = k) (rev xs))"
    by (simp only: sort_key_stable)
  also have "\<dots> = filter (\<lambda>a. relevance_score a = k) xs"
    by (simp add: rev_filter)
  finally show ?thesis .
qed

lemma sorted_reverse_descending:
  "sorted_wrt (\<lambda>x y. y \<le> x) (map relevance_score (sorted_reverse xs))"
proof -
  have "sorted (map relevance_score (sort_key relevance_score (rev xs)))"
    by (rule sorted_sort_key)
  then have "sorted_wrt (\<lambda>x y. y \<le> x)
               (rev (map relevance_score (sort_key relevance_score (rev xs))))"
    by (simp only: sorted_wrt_rev)
  then show ?thesis
    by (simp only: sorted_reverse_def rev_map)
qed

lemma mset_sorted_reverse: "mset (sorted_reverse xs) = mset xs"
  by (simp add: sorted_reverse_def)

lemma length_sorted_reverse: "length (sorted_reverse xs) = length xs"
  by (simp add: sorted_reverse_def)

lemma rank_articles_descending:
  "sorted_wrt (\<lambda>x y. y \<le> x) (map relevance_score (rank_articles xs))"
  using sorted_reverse_descending [of xs]
  by (simp add: rank_articles_def take_map [symmetric])

lemma rank_articles_stable:
  "prefix (filter (\<lambda>a. relevance_score a = k) (rank_articles xs))
          (filter (\<lambda>a. relevance_score a = k) xs)"
proof -
  have "prefix (take 15 (sorted_reverse xs)) (sorted_reverse xs)"
    by (rule take_is_prefix)
  then have "prefix (filter (\<lambda>a. relevance_score a = k) (take 15 (sorted_reverse xs)))
                    (filter (\<lambda>a. relevance_score a = k) (sorted_reverse xs))"
    by (rule filter_mono_prefix)
  then show ?thesis
    by (simp add: rank_articles_def sorted_reverse_stable)
qed

lemma rank_articles_top:
  assumes "a \<in> set (drop 15 (sorted_reverse xs))" and "b \<in> set (rank_articles xs)"
  shows "relevance_score a \<le> relevance_score b"
proof -
  have "sorted_wrt (\<lambda>x y. y \<le> x)
          (map relevance_score (take 15 (sorted_reverse xs) @ drop 15 (sorted_reverse xs)))"
    using sorted_reverse_descending [of xs] by simp
  then have "\<forall>x \<in> set (take 15 (sorted_reverse xs)). \<forall>y \<in> set (drop 15 (sorted_reverse xs)).
               relevance_score y \<le> relevance_score x"
    unfolding map_append sorted_wrt_append by auto
  then show ?thesis
    using assms by (simp add: rank_articles_def)
qed

text \<open>
  C6. For a deduplicated list of more than 15 articles the aggregation step returns
  exactly 15 articles, their scores never increase along the list, and the articles of
  any one score appear in the order they had in the input (they are the first of that
  score in the input). The 15 are a top selection: the list is a rearrangement of the
  input cut after 15 entries, and no article left out scores higher than one kept.
\<close>

theorem rank_articles_top_15:
  assumes "15 < length unique_articles"
  shows "length (rank_articles unique_articles) = 15
    \<and> sorted_wrt (\<lambda>x y. y \<le> x) (map relevance_score (rank_articles unique_articles))
    \<and> (\<forall>k. prefix (filter (\<lambda>a. relevance_score a = k) (rank_articles unique_articles))
                    (filter (\<lambda>a. relevance_score a = k) unique_articles))
    \<and> (\<exists>rest. mset (rank_articles unique_articles @ rest) = mset unique_articles
          \<and> (\<forall>a \<in> set rest. \<forall>b \<in> set (rank_articles unique_articles).
                relevance_score a \<le> relevance_score b))"
proof -
  have len: "length (rank_articles unique_articles) = 15"
    using assms by (simp add: rank_articles_def length_sorted_reverse)
  have "mset (rank_articles unique_articles @ drop 15 (sorted_reverse unique_articles))
        = mset unique_articles"
    unfolding rank_articles_def append_take_drop_id by (rule mset_sorted_reverse)
  then have "\<exists>rest. mset (rank_articles unique_articles @ rest) = mset unique_articles
          \<and> (\<forall>a \<in> set rest. \<forall>b \<in> set (rank_articles unique_articles).
                relevance_score a \<le> relevance_score b)"
    using rank_articles_top by blast
  with len rank_articles_descending rank_articles_stable show ?thesis
    by blast
qed

lemma rank_sixteen:
  "map title (rank_articles sixteen) =
     [''a10'', ''a02'', ''a06'', ''a15'', ''a13'', ''a00'', ''a03'', ''a07'', ''a12'',
      ''a05'', ''a11'', ''a08'', ''a01'', ''a04'', ''a09'']"
  by code_simp

theorem rank_articles_top_15_witness:
  "15 < length sixteen
   \<and> length (rank_articles sixteen) = 15
   \<and> sorted_wrt (\<lambda>x y. y \<le> x) (map relevance_score (rank_articles sixteen))
   \<and> map title (rank_articles sixteen) =
       [''a10'', ''a02'', ''a06'', ''a15'', ''a13'', ''a00'', ''a03'', ''a07'', ''a12'',
        ''a05'', ''a11'', ''a08'', ''a01'', ''a04'', ''a09'']"
proof -
  have h: "15 < length sixteen"
    by (simp add: sixteen_def)
  from rank_articles_top_15 [OF h] rank_sixteen h show ?thesis
    by blast
qed

section \<open>Properties of the delivery\<close>

lemma post_checked_eq:
  "post_checked web p tr =
     ((case web (posts_so_far tr) of
         Status c \<Rightarrow> raise_for_status c
       | No_response \<Rightarrow> Inl Transport_error),
      tr @ [Post p])"
  by (simp add: post_checked_def requests_post_def split: response.split)

lemma posts_so_far_snoc: "posts_so_far (tr @ [Post p]) = Suc (posts_so_far tr)"
  by (simp add: posts_so_far_def)

lemma send_rejected_400:
  assumes "web (posts_so_far tr) = Status 400"
  shows "send_weekly_discord_webhook web pfx outlook articles tr =
           ((case web (Suc (posts_so_far tr)) of
               Status c \<Rightarrow> raise_for_status c
             | No_response \<Rightarrow> Inl Transport_error),
            tr @ [Post (rich_payload outlook articles), Post (simple_payload pfx outlook)])"
  using assms
  by (simp add: send_weekly_discord_webhook_def post_checked_eq raise_for_status_def
        posts_so_far_snoc)

lemma send_other_http_error:
  assumes "web (posts_so_far tr) = Status c" and "400 \<le> c" and "c < 600" and "c \<noteq> 400"
  shows "send_weekly_discord_webhook web pfx outlook articles tr =
           (Inl (HTTPError c), tr @ [Post (rich_payload outlook articles)])"
  using assms
  by (simp add: send_weekly_discord_webhook_def post_checked_eq raise_for_status_def)

lemma send_transport_error:
  assumes "web (posts_so_far tr) = No_response"
  shows "send_weekly_discord_webhook web pfx outlook articles tr =
           (Inl Transport_error, tr @ [Post (rich_payload outlook articles)])"
  using assms
  by (simp add: send_weekly_discord_webhook_def post_checked_eq)

lemma send_accepted:
  assumes "web (posts_so_far tr) = Status c" and "c < 400 \<or> 600 \<le> c"
  shows "send_weekly_discord_webhook web pfx outlook articles tr =
           (Inr (), tr @ [Post (rich_payload outlook articles)])"
  using assms
  by (auto simp add: send_weekly_discord_webhook_def post_checked_eq raise_for_status_def)

text \<open>
  C5. When the webhook answers the rich payload with HTTP 400, exactly one more POST
  follows, of the simplified payload, whose content is the fixed line followed by the
  first 1800 characters of the outlook; the call then succeeds or raises as that second
  answer decides (an error status or a transport failure raises). Any other HTTP error
  status, and a transport failure, raise at once, after the single POST of the rich
  payload.
\<close>

theorem webhook_retry_only_on_400:
  "(web (posts_so_far tr) = Status 400 \<longrightarrow>
      snd (send_weekly_discord_webhook web pfx outlook articles tr)
        = tr @ [Post (rich_payload outlook articles),
                Post (Simple_payload (pfx @ take 1800 outlook))]
      \<and> fst (send_weekly_discord_webhook web pfx outlook articles tr)
        = (case web (Suc (posts_so_far tr)) of
             Status c \<Rightarrow> if 400 \<le> c \<and> c < 600 then Inl (HTTPError c) else Inr ()
           | No_response \<Rightarrow> Inl Transport_error))
   \<and> (\<forall>c. web (posts_so_far tr) = Status c \<and> 400 < c \<and> c < 600 \<longrightarrow>
        send_weekly_discord_webhook web pfx outlook articles tr
          = (Inl (HTTPError c), tr @ [Post (rich_payload outlook articles)]))
   \<and> (web (posts_so_far tr) = No_response \<longrightarrow>
        send_weekly_discord_webhook web pfx outlook articles tr
          = (Inl Transport_error, tr @ [Post (rich_payload outlook articles)]))"
proof (intro conjI impI allI)
  assume "web (posts_so_far tr) = Status 400"
  then show "snd (send_weekly_discord_webhook web pfx outlook articles tr)
        = tr @ [Post (rich_payload outlook articles),
                Post (Simple_payload (pfx @ take 1800 outlook))]"
    by (simp add: send_rejected_400 simple_payload_def)
next
  assume "web (posts_so_far tr) = Status 400"
  then show "fst (send_weekly_discord_webhook web pfx outlook articles tr)
        = (case web (Suc (posts_so_far tr)) of
             Status c \<Rightarrow> if 400 \<le> c \<and> c < 600 then Inl (HTTPError c) else Inr ()
           | No_response \<Rightarrow> Inl Transport_error)"
    by (simp add: send_rejected_400 raise_for_status_def split: response.split)
next
  fix c
  assume "web (posts_so_far tr) = Status c \<and> 400 < c \<and> c < 600"
  then show "send_weekly_discord_webhook web pfx outlook articles tr
          = (Inl (HTTPError c), tr @ [Post (rich_payload outlook articles)])"
    by (simp add: send_other_http_error)
next
  assume "web (posts_so_far tr) = No_response"
  then show "send_weekly_discord_webhook web pfx outlook articles tr
          = (Inl Transport_error, tr @ [Post (rich_payload outlook articles)])"
    by (rule send_transport_error)
qed

theorem webhook_retry_only_on_400_witness:
  "send_weekly_discord_webhook (answers [Status 400, Status 204]) ''P: '' ''Calm week.'' [] []
     = (Inr (), [Post (rich_payload ''Calm week.'' []), Post (Simple_payload ''P: Calm week.'')])
   \<and> send_weekly_discord_webhook (answers [Status 400, Status 400]) ''P: '' ''Calm week.'' [] []
     = (Inl (HTTPError 400),
        [Post (rich_payload ''Calm week.'' []), Post (Simple_payload ''P: Calm week.'')])
   \<and> send_weekly_discord_webhook (answers [Status 500]) ''P: '' ''Calm week.'' [] []
     = (Inl (HTTPError 500), [Post (rich_payload ''Calm week.'' [])])
   \<and> send_weekly_discord_webhook (answers [No_response]) ''P: '' ''Calm week.'' [] []
     = (Inl Transport_error, [Post (rich_payload ''Calm week.'' [])])"
proof -
  have a: "answers [Status 400, Status 204] (posts_so_far []) = Status 400"
      "answers [Status 400, Status 204] (Suc (posts_so_far [])) = Status 204"
    by (simp_all add: answers_def posts_so_far_def)
  have b: "answers [Status 400, Status 400] (posts_so_far []) = Status 400"
      "answers [Status 400, Status 400] (Suc (posts_so_far [])) = Status 400"
    by (simp_all add: answers_def posts_so_far_def)
  have c: "answers [Status 500] (posts_so_far []) = Status 500"
    by (simp add: answers_def posts_so_far_def)
  have d: "answers [No_response] (posts_so_far []) = No_response"
    by (simp add: answers_def posts_so_far_def)
  show ?thesis
    using webhook_retry_only_on_400
            [of "answers [Status 400, Status 204]" "[]" "''P: ''" "''Calm week.''" "[]"]
          webhook_retry_only_on_400
            [of "answers [Status 400, Status 400]" "[]" "''P: ''" "''Calm week.''" "[]"]
          webhook_retry_only_on_400
            [of "answers [Status 500]" "[]" "''P: ''" "''Calm week.''" "[]"]
          webhook_retry_only_on_400
            [of "answers [No_response]" "[]" "''P: ''" "''Calm week.''" "[]"]
    by (simp add: a b c d prod_eq_iff)
qed

section \<open>Properties of the driver\<close>

lemma send_raises_delivery_error:
  assumes "fst (send_weekly_discord_webhook web pfx outlook articles tr) = Inl ex"
  shows "(\<exists>c. ex = HTTPError c) \<or> ex = Transport_error"
  using assms
  by (auto simp add: send_weekly_discord_webhook_def post_checked_eq raise_for_status_def
        split: response.splits if_splits)

lemma run_stages_raises_delivery_error:
  assumes "fst (run_stages e tr) = Inl ex"
  shows "(\<exists>c. ex = HTTPError c) \<or> ex = Transport_error"
  using assms send_raises_delivery_error
  by (auto simp add: run_stages_def split: prod.splits)

lemma main_config_error:
  assumes "init_bot e = Inl ex"
  shows "main e = (Inl ex, notify_error e ex [])"
  using assms by (simp add: main_def)

lemma main_probe_failed:
  assumes "init_bot e = Inr ()" and "\<not> probe_ok e"
  shows "main e = (Inr (), [Probe_llm])"
  using assms by (simp add: main_def test_openai_def)

lemma main_stages:
  assumes "init_bot e = Inr ()" and "probe_ok e"
  shows "fst (main e) = fst (run_stages e [Probe_llm])"
  using assms
  by (auto simp add: main_def test_openai_def split: prod.splits sum.splits)

lemma init_bot_cases: "init_bot e = Inr () \<or> (\<exists>ex. init_bot e = Inl ex)"
  by (simp add: init_bot_def)

text \<open>
  C4, as amended. \<open>main\<close> raises, and the process ends with status 1, exactly when a
  required configuration value is missing or, with the configuration complete and the
  probe passed, a stage raises; the error raised is that original error, and a stage can
  only raise a delivery error. When the connectivity probe fails, the probe is the run's
  only request (no news is fetched), and \<open>main\<close> returns: the status is 0.
\<close>

theorem main_exit_status:
  "(exit_status (fst (main e)) = 1) =
     ((\<exists>ex. init_bot e = Inl ex)
      \<or> (probe_ok e \<and> (\<exists>ex. fst (run_stages e [Probe_llm]) = Inl ex)))
   \<and> (fst (main e) = Inl ex \<longrightarrow>
        init_bot e = Inl ex
        \<or> (fst (run_stages e [Probe_llm]) = Inl ex
            \<and> ((\<exists>c. ex = HTTPError c) \<or> ex = Transport_error)))
   \<and> (init_bot e = Inr () \<and> \<not> probe_ok e \<longrightarrow>
        main e = (Inr (), [Probe_llm]) \<and> exit_status (fst (main e)) = 0)"
proof (cases "init_bot e")
  case (Inl x)
  then show ?thesis
    by (simp add: main_config_error exit_status_def)
next
  case (Inr u)
  then have ok: "init_bot e = Inr ()" by simp
  show ?thesis
  proof (cases "probe_ok e")
    case False
    with ok show ?thesis
      by (simp add: main_probe_failed exit_status_def)
  next
    case True
    with ok have m: "fst (main e) = fst (run_stages e [Probe_llm])"
      by (rule main_stages)
    show ?thesis
      using ok True run_stages_raises_delivery_error [of e "[Probe_llm]" ex]
      by (auto simp add: m exit_status_def split: sum.splits)
  qed
qed

lemma main_probe_down_env: "main probe_down_env = (Inr (), [Probe_llm])"
  by (simp add: main_def init_bot_def truthy_def test_openai_def probe_down_env_def quiet_env_def)

lemma init_bot_probe_down_env: "init_bot probe_down_env = Inr ()"
  by (simp add: init_bot_def truthy_def probe_down_env_def quiet_env_def)

lemma init_bot_webhook_500_env: "init_bot webhook_500_env = Inr ()"
  by (simp add: init_bot_def truthy_def webhook_500_env_def quiet_env_def)

lemma init_bot_no_key_env: "init_bot no_key_env = Inl ValueError_openai_key"
  by (simp add: init_bot_def truthy_def no_key_env_def quiet_env_def)

lemma init_bot_no_url_env: "init_bot no_url_env = Inl ValueError_webhook_url"
  by (simp add: init_bot_def truthy_def no_url_env_def quiet_env_def)

lemma run_stages_webhook_500_env:
  "fst (run_stages webhook_500_env [Probe_llm]) = Inl (HTTPError 500)"
  by code_simp

theorem probe_failure_exits_zero:
  "reaches_failed probe_down_env \<and> exit_status (fst (main probe_down_env)) = 0"
  by (simp add: reaches_failed_def init_bot_probe_down_env main_probe_down_env exit_status_def)
     (simp add: probe_down_env_def quiet_env_def)

theorem main_exit_status_witness:
  "exit_status (fst (main no_key_env)) = 1
   \<and> exit_status (fst (main webhook_500_env)) = 1
   \<and> main probe_down_env = (Inr (), [Probe_llm])
   \<and> exit_status (fst (main probe_down_env)) = 0"
proof -
  have p: "\<not> probe_ok probe_down_env" "probe_ok webhook_500_env"
    by (simp_all add: probe_down_env_def webhook_500_env_def quiet_env_def)
  show ?thesis
    using main_exit_status [of no_key_env ValueError_openai_key]
          main_exit_status [of webhook_500_env "HTTPError 500"]
          main_exit_status [of probe_down_env ValueError_openai_key]
    by (simp add: init_bot_no_key_env init_bot_webhook_500_env init_bot_probe_down_env
          run_stages_webhook_500_env p exit_status_def)
qed

text \<open>
  C9, as amended. When a required configuration value is missing, \<open>main\<close> raises the
  configuration error and makes no probe, fetch or generation request. The only request
  it can make is the handler's error notification: none when the webhook URL is missing,
  and one POST of the error text to the webhook when the URL is set and the
  text-generation credential is missing.
\<close>

theorem config_error_run:
  assumes "\<not> truthy (openai_key e) \<or> \<not> truthy (webhook_url e)"
  shows "main e =
           (Inl (if \<not> truthy (openai_key e) then ValueError_openai_key else ValueError_webhook_url),
            if truthy (webhook_url e) then [Post (Error_payload ValueError_openai_key)] else [])"
  using assms by (auto simp add: main_def init_bot_def notify_error_def)

theorem config_error_notifies:
  "\<not> truthy (openai_key no_key_env)
   \<and> main no_key_env
       = (Inl ValueError_openai_key, [Post (Error_payload ValueError_openai_key)])"
  by (simp add: main_def init_bot_no_key_env notify_error_def)
     (simp add: truthy_def no_key_env_def quiet_env_def)

theorem config_error_run_witness:
  "truthy (openai_key no_key_env) = False
   \<and> main no_key_env
       = (Inl ValueError_openai_key, [Post (Error_payload ValueError_openai_key)])
   \<and> truthy (webhook_url no_url_env) = False
   \<and> main no_url_env = (Inl ValueError_webhook_url, [])"
proof -
  have a: "\<not> truthy (openai_key no_key_env)" "truthy (webhook_url no_key_env)"
    by (simp_all add: truthy_def no_key_env_def quiet_env_def)
  have b: "truthy (openai_key no_url_env)" "\<not> truthy (webhook_url no_url_env)"
    by (simp_all add: truthy_def no_url_env_def quiet_env_def)
  show ?thesis
    using config_error_run [of no_key_env] config_error_run [of no_url_env]
    by (simp add: a b)
qed

section \<open>Properties of the Deduplicator\<close>

lemma scan_seen_spec:
  assumes "finite tw"
  shows "scan_seen tw seen =
           (if tw = {} \<and> (\<exists>s \<in> set seen. set (split_ws s) = {}) then Inl ZeroDivisionError
            else Inr (\<exists>s \<in> set seen.
                        7 * max (card tw) (card (set (split_ws s)))
                          < 10 * card (tw \<inter> set (split_ws s))))"
  using assms
proof (induction seen)
  case Nil
  then show ?case by simp
next
  case (Cons s rest)
  show ?case
  proof (cases "tw = {}")
    case True
    then show ?thesis
      using Cons by (auto simp add: Let_def)
  next
    case False
    with Cons.prems have "0 < card tw"
      by (simp add: card_gt_0_iff)
    then have "max (card tw) (card (set (split_ws s))) \<noteq> 0"
      by simp
    then show ?thesis
      using Cons False by (auto simp add: Let_def)
  qed
qed

text \<open>
  The scan's result depends on the set of seen titles only, not on the order in which
  the set is iterated.
\<close>

lemma scan_seen_order_irrelevant:
  assumes "finite tw" and "set seen1 = set seen2"
  shows "scan_seen tw seen1 = scan_seen tw seen2"
  using assms by (simp add: scan_seen_spec)

lemma overlap_above_threshold:
  assumes "finite A" and "finite B"
  shows "(7 / 10 < overlap A B) = (7 * max (card A) (card B) < 10 * card (A \<inter> B))"
proof (cases "max (card A) (card B) = 0")
  case True
  then have "A = {}"
    using assms by simp
  with True show ?thesis
    by (simp add: overlap_def)
next
  case False
  then have "0 < max (card A) (card B)"
    by (simp only: neq0_conv)
  then have pos: "(0::rat) < of_nat (max (card A) (card B))"
    by (simp only: of_nat_0_less_iff)
  have "(7 / 10 < overlap A B)
        = ((7::rat) * of_nat (max (card A) (card B)) < 10 * of_nat (card (A \<inter> B)))"
    unfolding overlap_def using pos by (simp add: field_simps)
  also have "\<dots> = ((of_nat (7 * max (card A) (card B)) :: rat) < of_nat (10 * card (A \<inter> B)))"
    by simp
  also have "\<dots> = (7 * max (card A) (card B) < 10 * card (A \<inter> B))"
    by (simp only: of_nat_less_iff)
  finally show ?thesis .
qed

lemma zero_words_iff: "zero_words a = (title_words a = {})"
  by (simp add: zero_words_def title_words_def)

lemma overlap_articles:
  "(7 / 10 < overlap (title_words a) (title_words b))
   = (7 * max (card (title_words a)) (card (title_words b))
        < 10 * card (title_words a \<inter> title_words b))"
  by (rule overlap_above_threshold) (simp_all add: title_words_def)

lemma set_set_add: "set (set_add seen t) = insert t (set seen)"
  by (auto simp add: set_add_def)

lemma scan_seen_articles:
  assumes "set seen = (\<lambda>b. lower (title b)) ` set unique"
  shows "scan_seen (set (split_ws (lower (title a)))) seen =
           (if zero_words a \<and> (\<exists>b \<in> set unique. zero_words b) then Inl ZeroDivisionError
            else Inr (\<exists>b \<in> set unique. 7 / 10 < overlap (title_words a) (title_words b)))"
proof -
  have "scan_seen (set (split_ws (lower (title a)))) seen =
          (if title_words a = {} \<and> (\<exists>s \<in> set seen. set (split_ws s) = {})
           then Inl ZeroDivisionError
           else Inr (\<exists>s \<in> set seen.
                       7 * max (card (title_words a)) (card (set (split_ws s)))
                         < 10 * card (title_words a \<inter> set (split_ws s))))"
    unfolding title_words_def by (rule scan_seen_spec) simp
  also have "\<dots> =
          (if zero_words a \<and> (\<exists>b \<in> set unique. zero_words b) then Inl ZeroDivisionError
           else Inr (\<exists>b \<in> set unique. 7 / 10 < overlap (title_words a) (title_words b)))"
    unfolding overlap_articles
    by (simp add: assms zero_words_iff title_words_def)
  finally show ?thesis .
qed

lemma dedup_loop_greedy:
  assumes "set seen = (\<lambda>b. lower (title b)) ` set unique"
    and "length (filter zero_words (unique @ xs)) \<le> 1"
  shows "dedup_loop xs unique seen = Inr (greedy_scan (\<lambda>r. 7 / 10 < r) unique xs)"
  using assms
proof (induction xs arbitrary: unique seen)
  case Nil
  then show ?case by simp
next
  case (Cons a xs)
  have no_raise: "\<not> (zero_words a \<and> (\<exists>b \<in> set unique. zero_words b))"
  proof
    assume h: "zero_words a \<and> (\<exists>b \<in> set unique. zero_words b)"
    then have "filter zero_words unique \<noteq> []"
      by (auto simp add: filter_empty_conv)
    then have "1 \<le> length (filter zero_words unique)"
      by (cases "filter zero_words unique") simp_all
    with h Cons.prems(2) show False
      by simp
  qed
  have scan: "scan_seen (set (split_ws (lower (title a)))) seen =
                Inr (\<exists>b \<in> set unique. 7 / 10 < overlap (title_words a) (title_words b))"
    using scan_seen_articles [OF Cons.prems(1), of a] no_raise by simp
  show ?case
  proof (cases "\<exists>b \<in> set unique. 7 / 10 < overlap (title_words a) (title_words b)")
    case True
    have "length (filter zero_words (unique @ xs)) \<le> 1"
      using Cons.prems(2) by (simp split: if_splits)
    with Cons.IH [OF Cons.prems(1)] True scan show ?thesis
      by simp
  next
    case False
    have s: "set (set_add seen (lower (title a))) = (\<lambda>b. lower (title b)) ` set (unique @ [a])"
      using Cons.prems(1) by (simp add: set_set_add)
    have "length (filter zero_words ((unique @ [a]) @ xs)) \<le> 1"
      using Cons.prems(2) by simp
    with Cons.IH [OF s] False scan show ?thesis
      by simp
  qed
qed

lemma greedy_scan_subseq:
  "\<exists>ys. greedy_scan dup accepted xs = accepted @ ys \<and> subseq ys xs"
proof (induction xs arbitrary: accepted)
  case Nil
  then show ?case by simp
next
  case (Cons a xs)
  show ?case
  proof (cases "\<exists>b \<in> set accepted. dup (overlap (title_words a) (title_words b))")
    case True
    with Cons [of accepted] show ?thesis
      by auto
  next
    case False
    from Cons [of "accepted @ [a]"] obtain ys
      where "greedy_scan dup (accepted @ [a]) xs = (accepted @ [a]) @ ys" and "subseq ys xs"
      by blast
    with False show ?thesis
      by (auto intro!: exI [of _ "a # ys"])
  qed
qed

text \<open>
  C1, as amended. For every input with at most one title of zero words, the
  Deduplicator returns the result of the greedy scan that drops an article exactly when
  the overlap of its title's word set with the word set of some accepted title is
  strictly above 0.7, and keeps it otherwise; the result is a subsequence of the input in
  its order.
\<close>

theorem dedup_greedy_strict:
  assumes "length (filter zero_words articles) \<le> 1"
  shows "deduplicate_articles articles = Inr (greedy_scan (\<lambda>r. 7 / 10 < r) [] articles)
    \<and> subseq (greedy_scan (\<lambda>r. 7 / 10 < r) [] articles) articles"
proof -
  have "deduplicate_articles articles = Inr (greedy_scan (\<lambda>r. 7 / 10 < r) [] articles)"
    unfolding deduplicate_articles_def using assms by (intro dedup_loop_greedy) simp_all
  moreover have "subseq (greedy_scan (\<lambda>r. 7 / 10 < r) [] articles) articles"
    using greedy_scan_subseq [of "\<lambda>r. 7 / 10 < r" "[]" articles] by auto
  ultimately show ?thesis
    by simp
qed

lemma dedup_fed_headlines:
  "deduplicate_articles fed_headlines =
     Inr [headline ''Fed Raises Rates Again'' 4, headline ''Apple Reports Earnings'' 4]"
  by code_simp

lemma zero_words_fed_headlines: "filter zero_words fed_headlines = []"
  by code_simp

theorem dedup_greedy_strict_witness:
  "length (filter zero_words fed_headlines) \<le> 1
   \<and> deduplicate_articles fed_headlines =
       Inr [headline ''Fed Raises Rates Again'' 4, headline ''Apple Reports Earnings'' 4]
   \<and> greedy_scan (\<lambda>r. 7 / 10 < r) [] fed_headlines =
       [headline ''Fed Raises Rates Again'' 4, headline ''Apple Reports Earnings'' 4]"
proof -
  have h: "length (filter zero_words fed_headlines) \<le> 1"
    by (simp add: zero_words_fed_headlines)
  from dedup_greedy_strict [OF h] dedup_fed_headlines h show ?thesis
    by simp
qed

lemma dedup_seven_of_ten: "deduplicate_articles seven_of_ten = Inr seven_of_ten"
  by code_simp

lemma seven_of_ten_overlap:
  "card (title_words ten_second \<inter> title_words ten_first) = 7
   \<and> card (title_words ten_second) = 10 \<and> card (title_words ten_first) = 10"
  by code_simp

theorem dedup_keeps_overlap_of_exactly_07:
  "overlap (title_words ten_second) (title_words ten_first) = 7 / 10
   \<and> deduplicate_articles seven_of_ten = Inr seven_of_ten
   \<and> spec_deduplicate seven_of_ten = [ten_first]"
proof -
  have o: "overlap (title_words ten_second) (title_words ten_first) = 7 / 10"
    by (simp add: overlap_def seven_of_ten_overlap)
  have "spec_deduplicate seven_of_ten = [ten_first]"
    using o by (simp add: spec_deduplicate_def seven_of_ten_def)
  with o dedup_seven_of_ten show ?thesis
    by simp
qed

text \<open>
  C8. On two articles whose titles have no word (an empty title and a blank one) the
  Deduplicator raises ZeroDivisionError: the second title is compared with the first,
  and the larger of the two word counts, the divisor, is 0.
\<close>

theorem dedup_wordless_titles_raises:
  "deduplicate_articles wordless_titles = Inl ZeroDivisionError"
  by code_simp

section \<open>Properties of the fetch-and-aggregate pipeline\<close>

lemma newsapi_loop_step:
  "newsapi_loop (r # rs) articles = articles
   \<or> newsapi_loop (r # rs) articles = newsapi_loop rs articles
   \<or> (\<exists>t d u s p. t \<noteq> [] \<and> d \<noteq> []
        \<and> newsapi_loop (r # rs) articles =
            newsapi_loop rs
              (articles @ [\<lparr>title = t, description = d, url = u, source = s,
                            published_at = p, relevance_score = calculate_relevance t d\<rparr>]))"
proof (cases "raw_title r")
  case None
  then show ?thesis by simp
next
  case t: (Some t)
  show ?thesis
  proof (cases "raw_description r")
    case None
    with t show ?thesis by simp
  next
    case d: (Some d)
    show ?thesis
    proof (cases "t \<noteq> [] \<and> d \<noteq> []")
      case False
      with t d show ?thesis by auto
    next
      case True
      show ?thesis
      proof (cases "raw_url r")
        case None
        with t d True show ?thesis by simp
      next
        case u: (Some u)
        show ?thesis
        proof (cases "raw_source_name r")
          case None
          with t d True u show ?thesis by simp
        next
          case s: (Some s)
          show ?thesis
          proof (cases "raw_publishedAt r")
            case None
            with t d True u s show ?thesis by simp
          next
            case (Some p)
            with t d True u s
            have "newsapi_loop (r # rs) articles =
                    newsapi_loop rs
                      (articles @ [\<lparr>title = t, description = d, url = u, source = s,
                                    published_at = p,
                                    relevance_score = calculate_relevance t d\<rparr>])"
              by simp
            with True show ?thesis by blast
          qed
        qed
      qed
    qed
  qed
qed

lemma newsapi_loop_invariant:
  assumes "\<forall>a \<in> set articles. title a \<noteq> [] \<and> description a \<noteq> [] \<and> 0 \<le> relevance_score a"
  shows "\<forall>a \<in> set (newsapi_loop rs articles).
           title a \<noteq> [] \<and> description a \<noteq> [] \<and> 0 \<le> relevance_score a"
  using assms
proof (induction rs arbitrary: articles)
  case Nil
  then show ?case by simp
next
  case (Cons r rs)
  from newsapi_loop_step [of r rs articles] consider
      (stop) "newsapi_loop (r # rs) articles = articles"
    | (skip) "newsapi_loop (r # rs) articles = newsapi_loop rs articles"
    | (add) t d u s p where "t \<noteq> []" "d \<noteq> []"
        "newsapi_loop (r # rs) articles =
           newsapi_loop rs
             (articles @ [\<lparr>title = t, description = d, url = u, source = s,
                           published_at = p, relevance_score = calculate_relevance t d\<rparr>])"
    by blast
  then show ?case
  proof cases
    case stop
    with Cons.prems show ?thesis by (simp only:)
  next
    case skip
    from Cons.IH [OF Cons.prems] show ?thesis by (simp only: skip)
  next
    case add
    have "\<forall>a \<in> set (articles @ [\<lparr>title = t, description = d, url = u, source = s,
                              published_at = p, relevance_score = calculate_relevance t d\<rparr>]).
            title a \<noteq> [] \<and> description a \<noteq> [] \<and> 0 \<le> relevance_score a"
      using Cons.prems add(1,2) by (simp add: calculate_relevance_nonneg)
    from Cons.IH [OF this] show ?thesis by (simp only: add(3))
  qed
qed

lemma fetch_from_newsapi_nonempty:
  "\<forall>a \<in> set (fetch_from_newsapi resp).
     title a \<noteq> [] \<and> description a \<noteq> [] \<and> 0 \<le> relevance_score a"
proof (cases resp)
  case News_exception
  then show ?thesis by (simp add: fetch_from_newsapi_def)
next
  case (News_status status raws)
  then show ?thesis
    using newsapi_loop_invariant [of "[]" raws] by (simp add: fetch_from_newsapi_def)
qed

lemma rss_entries_loop_invariant:
  assumes "\<forall>a \<in> set articles. 0 \<le> relevance_score a \<and> length (description a) \<le> 200"
  shows "\<forall>a \<in> set (rss_entries_loop ft es articles).
           0 \<le> relevance_score a \<and> length (description a) \<le> 200"
  using assms
proof (induction es arbitrary: articles)
  case Nil
  then show ?case by simp
next
  case (Cons e es)
  show ?case
  proof (cases "\<exists>t l. entry_title e = Some t \<and> entry_link e = Some l")
    case False
    then have "rss_entries_loop ft (e # es) articles = rss_entries_loop ft es articles"
      by (auto split: option.splits)
    then show ?thesis using Cons by simp
  next
    case True
    then obtain t l where tl: "entry_title e = Some t" "entry_link e = Some l"
      by blast
    show ?thesis
      unfolding rss_entries_loop.simps tl option.case prod.case
      by (rule Cons.IH) (use Cons.prems in \<open>auto simp add: calculate_relevance_nonneg\<close>)
  qed
qed

lemma fetch_from_rss_loop_invariant:
  assumes "\<forall>a \<in> set articles. 0 \<le> relevance_score a \<and> length (description a) \<le> 200"
  shows "\<forall>a \<in> set (fetch_from_rss_loop feeds articles).
           0 \<le> relevance_score a \<and> length (description a) \<le> 200"
  using assms
proof (induction feeds articles rule: fetch_from_rss_loop.induct)
  case (1 articles)
  then show ?case by simp
next
  case (2 fs articles)
  then show ?case by simp
next
  case (3 feed_title entries fs articles)
  have "\<forall>a \<in> set (rss_entries_loop feed_title (take 10 entries) articles).
          0 \<le> relevance_score a \<and> length (description a) \<le> 200"
    using "3.prems" by (rule rss_entries_loop_invariant)
  from "3.IH" [OF this] show ?case by simp
qed

lemma fetch_from_rss_scores:
  "\<forall>a \<in> set (fetch_from_rss feeds). 0 \<le> relevance_score a \<and> length (description a) \<le> 200"
  unfolding fetch_from_rss_def by (rule fetch_from_rss_loop_invariant) simp

lemma rss_entries_loop_step:
  "rss_entries_loop ft (e # es) articles = rss_entries_loop ft es articles
   \<or> (\<exists>t l. entry_title e = Some t \<and> entry_link e = Some l
        \<and> rss_entries_loop ft (e # es) articles
            = rss_entries_loop ft es (articles @ [entry_article ft e t l]))"
proof (cases "entry_title e")
  case None
  then show ?thesis by simp
next
  case t: (Some t)
  show ?thesis
  proof (cases "entry_link e")
    case None
    with t show ?thesis by simp
  next
    case (Some l)
    with t have "rss_entries_loop ft (e # es) articles
                   = rss_entries_loop ft es (articles @ [entry_article ft e t l])"
      by (simp add: entry_article_def)
    with t Some show ?thesis by blast
  qed
qed

lemma rss_entries_loop_origin:
  assumes "a \<in> set (rss_entries_loop ft es articles)"
  shows "a \<in> set articles
         \<or> (\<exists>e \<in> set es. \<exists>t l. entry_title e = Some t \<and> entry_link e = Some l
               \<and> a = entry_article ft e t l)"
  using assms
proof (induction es arbitrary: articles)
  case Nil
  then show ?case by simp
next
  case (Cons e es)
  from rss_entries_loop_step [of ft e es articles] consider
      (skip) "rss_entries_loop ft (e # es) articles = rss_entries_loop ft es articles"
    | (add) t l where "entry_title e = Some t" "entry_link e = Some l"
        "rss_entries_loop ft (e # es) articles
           = rss_entries_loop ft es (articles @ [entry_article ft e t l])"
    by blast
  then show ?case
  proof cases
    case skip
    with Cons.prems have "a \<in> set (rss_entries_loop ft es articles)"
      by (simp only:)
    from Cons.IH [OF this] show ?thesis
      by auto
  next
    case add
    with Cons.prems
    have "a \<in> set (rss_entries_loop ft es (articles @ [entry_article ft e t l]))"
      by (simp only:)
    from Cons.IH [OF this] add(1,2) show ?thesis
      by auto
  qed
qed

lemma fetch_from_rss_loop_origin:
  assumes "a \<in> set (fetch_from_rss_loop feeds articles)"
  shows "a \<in> set articles
         \<or> (\<exists>ft es. Feed ft es \<in> set feeds
              \<and> (\<exists>e \<in> set (take 10 es). \<exists>t l. entry_title e = Some t
                    \<and> entry_link e = Some l \<and> a = entry_article ft e t l))"
  using assms
proof (induction feeds articles rule: fetch_from_rss_loop.induct)
  case (1 articles)
  then show ?case by simp
next
  case (2 fs articles)
  then have "a \<in> set (fetch_from_rss_loop fs articles)"
    by simp
  from "2.IH" [OF this] consider
      (old) "a \<in> set articles"
    | (later) ft es where "Feed ft es \<in> set fs"
        "\<exists>e \<in> set (take 10 es). \<exists>t l. entry_title e = Some t
           \<and> entry_link e = Some l \<and> a = entry_article ft e t l"
    by blast
  then show ?case
  proof cases
    case old
    then show ?thesis by simp
  next
    case later
    from later(1) have "Feed ft es \<in> set (Feed_exception # fs)"
      by simp
    with later(2) show ?thesis
      by blast
  qed
next
  case (3 feed_title entries fs articles)
  then have "a \<in> set (fetch_from_rss_loop fs
                         (rss_entries_loop feed_title (take 10 entries) articles))"
    by simp
  from "3.IH" [OF this] consider
      (here) "a \<in> set (rss_entries_loop feed_title (take 10 entries) articles)"
    | (later) "\<exists>ft es. Feed ft es \<in> set fs
              \<and> (\<exists>e \<in> set (take 10 es). \<exists>t l. entry_title e = Some t
                    \<and> entry_link e = Some l \<and> a = entry_article ft e t l)"
    by blast
  then show ?case
  proof cases
    case here
    from rss_entries_loop_origin [OF this]
    have "a \<in> set articles
          \<or> (\<exists>e \<in> set (take 10 entries). \<exists>t l. entry_title e = Some t
                \<and> entry_link e = Some l \<and> a = entry_article feed_title e t l)" .
    moreover have "Feed feed_title entries \<in> set (Feed feed_title entries # fs)"
      by simp
    ultimately show ?thesis
      by blast
  next
    case later
    then obtain ft es where "Feed ft es \<in> set fs"
      and ex: "\<exists>e \<in> set (take 10 es). \<exists>t l. entry_title e = Some t
                 \<and> entry_link e = Some l \<and> a = entry_article ft e t l"
      by blast
    then have "Feed ft es \<in> set (Feed feed_title entries # fs)"
      by simp
    with ex show ?thesis
      by blast
  qed
qed

lemma fetch_from_rss_origin:
  assumes "a \<in> set (fetch_from_rss feeds)"
  shows "\<exists>ft es e t l. Feed ft es \<in> set feeds \<and> e \<in> set (take 10 es)
           \<and> entry_title e = Some t \<and> entry_link e = Some l
           \<and> a = \<lparr>title = t,
                    description = take 200 (case entry_summary e of Some s \<Rightarrow> s | None \<Rightarrow> t),
                    url = l,
                    source = (case ft of Some x \<Rightarrow> x | None \<Rightarrow> ''RSS Feed''),
                    published_at = (case entry_published e of Some p \<Rightarrow> p | None \<Rightarrow> []),
                    relevance_score =
                      calculate_relevance t
                        (case entry_summary e of Some s \<Rightarrow> s | None \<Rightarrow> [])\<rparr>"
proof -
  from assms have "a \<in> set (fetch_from_rss_loop feeds [])"
    by (simp add: fetch_from_rss_def)
  from fetch_from_rss_loop_origin [OF this] obtain ft es e t l where
    "Feed ft es \<in> set feeds" "e \<in> set (take 10 es)" "entry_title e = Some t"
    "entry_link e = Some l" "a = entry_article ft e t l"
    by auto
  then show ?thesis
    unfolding entry_article_def by blast
qed

lemma dedup_loop_subset:
  assumes "dedup_loop xs unique seen = Inr ys"
  shows "set ys \<subseteq> set unique \<union> set xs"
  using assms
proof (induction xs arbitrary: unique seen)
  case Nil
  then show ?case by simp
next
  case (Cons a xs)
  show ?case
  proof (cases "scan_seen (set (split_ws (lower (title a)))) seen")
    case (Inl e)
    with Cons.prems show ?thesis by simp
  next
    case (Inr dup)
    show ?thesis
    proof (cases dup)
      case True
      with Inr Cons.prems have "dedup_loop xs unique seen = Inr ys"
        by simp
      from Cons.IH [OF this] show ?thesis
        by auto
    next
      case False
      with Inr Cons.prems
      have "dedup_loop xs (unique @ [a]) (set_add seen (lower (title a))) = Inr ys"
        by simp
      from Cons.IH [OF this] show ?thesis
        by auto
    qed
  qed
qed

lemma set_rank_articles: "set (rank_articles xs) \<subseteq> set xs"
proof -
  have "set (take 15 (sorted_reverse xs)) \<subseteq> set (sorted_reverse xs)"
    by (rule set_take_subset)
  then show ?thesis
    by (simp add: rank_articles_def sorted_reverse_def)
qed

lemma fetch_weekend_news_subset:
  "set (fetch_weekend_news key resp feeds)
     \<subseteq> set (fetch_from_newsapi resp) \<union> set (fetch_from_rss feeds)"
proof (cases "deduplicate_articles
               ((if truthy key then fetch_from_newsapi resp else []) @ fetch_from_rss feeds)")
  case (Inl e)
  then show ?thesis
    by (simp add: fetch_weekend_news_def)
next
  case (Inr unique)
  then have "dedup_loop
               ((if truthy key then fetch_from_newsapi resp else []) @ fetch_from_rss feeds)
               [] [] = Inr unique"
    by (simp add: deduplicate_articles_def)
  then have "set unique
               \<subseteq> set [] \<union> set ((if truthy key then fetch_from_newsapi resp else [])
                                    @ fetch_from_rss feeds)"
    by (rule dedup_loop_subset)
  then have "set unique \<subseteq> set (fetch_from_newsapi resp) \<union> set (fetch_from_rss feeds)"
    by (auto split: if_splits)
  moreover have "set (rank_articles unique) \<subseteq> set unique"
    by (rule set_rank_articles)
  moreover have "fetch_weekend_news key resp feeds = rank_articles unique"
    using Inr by (simp add: fetch_weekend_news_def)
  ultimately show ?thesis
    by simp
qed

lemma relevance_fed_holds: "calculate_relevance ''Fed holds rates'' ''Markets calm'' = 4"
  by (rule calculate_relevance_steps
        [where low = "''fed holds rates markets calm''" and a = 4 and b = 4 and c = 4];
      code_simp)

lemma relevance_apple: "calculate_relevance ''Apple Reports Earnings'' [] = 4"
  by (rule calculate_relevance_steps
        [where low = "''apple reports earnings ''" and a = 4 and b = 4 and c = 4];
      code_simp)

lemma relevance_blank: "calculate_relevance [] [] = 0"
  by (rule calculate_relevance_steps [where low = "'' ''" and a = 0 and b = 0 and c = 0];
      code_simp)

lemma newsapi_fed_response:
  "fetch_from_newsapi fed_response =
     [\<lparr>title = ''Fed holds rates'', description = ''Markets calm'',
       url = ''https://news.example/fed'', source = ''Reuters'',
       published_at = ''2024-01-05'', relevance_score = 4\<rparr>]"
  by (simp add: fetch_from_newsapi_def fed_response_def relevance_fed_holds)

lemma rss_apple_feed:
  "fetch_from_rss apple_feed =
     [\<lparr>title = ''Apple Reports Earnings'', description = ''Apple Reports Earnings'',
       url = ''https://wire.example/2'', source = ''RSS Feed'',
       published_at = [], relevance_score = 4\<rparr>]"
  by (simp add: fetch_from_rss_def apple_feed_def relevance_apple)

lemma rss_blank_entry_feed: "fetch_from_rss blank_entry_feed = [blank_article]"
  by (simp add: fetch_from_rss_def blank_entry_feed_def blank_article_def relevance_blank)

lemma dedup_fed_apple:
  "deduplicate_articles
     [\<lparr>title = ''Fed holds rates'', description = ''Markets calm'',
       url = ''https://news.example/fed'', source = ''Reuters'',
       published_at = ''2024-01-05'', relevance_score = 4\<rparr>,
      \<lparr>title = ''Apple Reports Earnings'', description = ''Apple Reports Earnings'',
       url = ''https://wire.example/2'', source = ''RSS Feed'',
       published_at = [], relevance_score = 4\<rparr>] =
   Inr [\<lparr>title = ''Fed holds rates'', description = ''Markets calm'',
       url = ''https://news.example/fed'', source = ''Reuters'',
       published_at = ''2024-01-05'', relevance_score = 4\<rparr>,
      \<lparr>title = ''Apple Reports Earnings'', description = ''Apple Reports Earnings'',
       url = ''https://wire.example/2'', source = ''RSS Feed'',
       published_at = [], relevance_score = 4\<rparr>]"
  by code_simp

lemma rank_fed_apple:
  "rank_articles
     [\<lparr>title = ''Fed holds rates'', description = ''Markets calm'',
       url = ''https://news.example/fed'', source = ''Reuters'',
       published_at = ''2024-01-05'', relevance_score = 4\<rparr>,
      \<lparr>title = ''Apple Reports Earnings'', description = ''Apple Reports Earnings'',
       url = ''https://wire.example/2'', source = ''RSS Feed'',
       published_at = [], relevance_score = 4\<rparr>] =
   [\<lparr>title = ''Fed holds rates'', description = ''Markets calm'',
       url = ''https://news.example/fed'', source = ''Reuters'',
       published_at = ''2024-01-05'', relevance_score = 4\<rparr>,
      \<lparr>title = ''Apple Reports Earnings'', description = ''Apple Reports Earnings'',
       url = ''https://wire.example/2'', source = ''RSS Feed'',
       published_at = [], relevance_score = 4\<rparr>]"
  by code_simp

lemma fetch_fed_apple:
  "fetch_weekend_news (Some ''key'') fed_response apple_feed =
     [\<lparr>title = ''Fed holds rates'', description = ''Markets calm'',
       url = ''https://news.example/fed'', source = ''Reuters'',
       published_at = ''2024-01-05'', relevance_score = 4\<rparr>,
      \<lparr>title = ''Apple Reports Earnings'', description = ''Apple Reports Earnings'',
       url = ''https://wire.example/2'', source = ''RSS Feed'',
       published_at = [], relevance_score = 4\<rparr>]"
  by (simp add: fetch_weekend_news_def truthy_def newsapi_fed_response rss_apple_feed
        dedup_fed_apple rank_fed_apple)

lemma dedup_blank_article: "deduplicate_articles [blank_article] = Inr [blank_article]"
  by code_simp

lemma rank_blank_article: "rank_articles [blank_article] = [blank_article]"
  by code_simp

text \<open>
  C2, as amended. Every article of the final ranked list comes from the News API or from
  an RSS entry and has a relevance score of at least 0. The articles from the News API
  have a non-empty title and a non-empty description. An article from an RSS feed is
  built from one of the feed's first 10 entries that has a title and a link: its title
  is the entry's title, its description the first 200 characters of the entry's summary
  (of the title when the entry has no summary), its link the entry's link, and its score
  that of the title and the summary. Nothing makes the title or the description
  non-empty.
\<close>

theorem ranked_articles_invariant:
  "set (fetch_weekend_news key resp feeds)
     \<subseteq> set (fetch_from_newsapi resp) \<union> set (fetch_from_rss feeds)
   \<and> (\<forall>a \<in> set (fetch_weekend_news key resp feeds). 0 \<le> relevance_score a)
   \<and> (\<forall>a \<in> set (fetch_from_newsapi resp). title a \<noteq> [] \<and> description a \<noteq> [])
   \<and> (\<forall>a \<in> set (fetch_from_rss feeds). length (description a) \<le> 200)
   \<and> (\<forall>a \<in> set (fetch_from_rss feeds).
        \<exists>ft es e t l. Feed ft es \<in> set feeds \<and> e \<in> set (take 10 es)
          \<and> entry_title e = Some t \<and> entry_link e = Some l
          \<and> a = \<lparr>title = t,
                   description = take 200 (case entry_summary e of Some s \<Rightarrow> s | None \<Rightarrow> t),
                   url = l,
                   source = (case ft of Some x \<Rightarrow> x | None \<Rightarrow> ''RSS Feed''),
                   published_at = (case entry_published e of Some p \<Rightarrow> p | None \<Rightarrow> []),
                   relevance_score =
                     calculate_relevance t
                       (case entry_summary e of Some s \<Rightarrow> s | None \<Rightarrow> [])\<rparr>)"
proof -
  have f1: "set (fetch_weekend_news key resp feeds)
              \<subseteq> set (fetch_from_newsapi resp) \<union> set (fetch_from_rss feeds)"
    by (rule fetch_weekend_news_subset)
  have f2: "\<forall>a \<in> set (fetch_weekend_news key resp feeds). 0 \<le> relevance_score a"
    using f1 fetch_from_newsapi_nonempty [of resp] fetch_from_rss_scores [of feeds]
    by blast
  have f3: "\<forall>a \<in> set (fetch_from_newsapi resp). title a \<noteq> [] \<and> description a \<noteq> []"
    using fetch_from_newsapi_nonempty [of resp] by blast
  have f4: "\<forall>a \<in> set (fetch_from_rss feeds). length (description a) \<le> 200"
    using fetch_from_rss_scores [of feeds] by blast
  have f5: "\<forall>a \<in> set (fetch_from_rss feeds).
        \<exists>ft es e t l. Feed ft es \<in> set feeds \<and> e \<in> set (take 10 es)
          \<and> entry_title e = Some t \<and> entry_link e = Some l
          \<and> a = \<lparr>title = t,
                   description = take 200 (case entry_summary e of Some s \<Rightarrow> s | None \<Rightarrow> t),
                   url = l,
                   source = (case ft of Some x \<Rightarrow> x | None \<Rightarrow> ''RSS Feed''),
                   published_at = (case entry_published e of Some p \<Rightarrow> p | None \<Rightarrow> []),
                   relevance_score =
                     calculate_relevance t
                       (case entry_summary e of Some s \<Rightarrow> s | None \<Rightarrow> [])\<rparr>"
    by (rule ballI) (rule fetch_from_rss_origin)
  show ?thesis
    by (rule conjI [OF f1 conjI [OF f2 conjI [OF f3 conjI [OF f4 f5]]]])
qed

theorem ranked_articles_invariant_witness:
  "fetch_weekend_news (Some ''key'') fed_response apple_feed =
     [\<lparr>title = ''Fed holds rates'', description = ''Markets calm'',
       url = ''https://news.example/fed'', source = ''Reuters'',
       published_at = ''2024-01-05'', relevance_score = 4\<rparr>,
      \<lparr>title = ''Apple Reports Earnings'', description = ''Apple Reports Earnings'',
       url = ''https://wire.example/2'', source = ''RSS Feed'',
       published_at = [], relevance_score = 4\<rparr>]
   \<and> list_all (\<lambda>a. 0 \<le> relevance_score a)
        (fetch_weekend_news (Some ''key'') fed_response apple_feed)
   \<and> list_all (\<lambda>a. title a \<noteq> [] \<and> description a \<noteq> []) (fetch_from_newsapi fed_response)"
  using ranked_articles_invariant [of "Some ''key''" fed_response apple_feed] fetch_fed_apple
  by (simp add: list_all_iff)

theorem rss_blank_entry_is_ranked:
  "fetch_weekend_news None News_exception blank_entry_feed = [blank_article]
   \<and> title blank_article = [] \<and> description blank_article = []"
  by (simp add: fetch_weekend_news_def truthy_def fetch_from_newsapi_def rss_blank_entry_feed
        dedup_blank_article rank_blank_article)
     (simp add: blank_article_def)

section \<open>Properties of the chunking\<close>






























end
